theory Spec2Isabelle
  imports Complex_Main "HOL-Library.Word" "HOL-Library.Log_Nat"
begin

section \<open>The cache engine of go-cache, embedded from \<open>src/demo.go\<close>\<close>

text \<open>
  The engine is the generic type \<open>cache[T]\<close>: a table from string keys to items, a default
  time-to-live and an optional eviction callback. Every exported operation takes the
  engine's lock around its access to the table, so an operation is modelled as one function
  from the engine before the call to the engine after it. Each call of \<open>time.Now()\<close> in the
  source is an argument of the model (a clock reading in nanoseconds since the Unix epoch,
  an \<open>int64\<close>), so nothing is assumed about how the clock moves between two readings.
\<close>

subsection \<open>Payloads\<close>

text \<open>
  \<open>Increment\<close> and \<open>Decrement\<close> switch on the dynamic type of the payload. The payload is
  therefore the tagged union of the thirteen types the switch names and of everything else
  (\<open>VOther\<close>: strings, structs, the nil interface, named types). A value of a type of
  fixed width is a word of that width. The width of \<open>int\<close>, \<open>uint\<close> and \<open>uintptr\<close>
  depends on the platform (32 or 64 bits): such a value is the integer it denotes, and the
  operations that compute one take the platform's width \<open>W\<close> and wrap around it.
\<close>

type_synonym int64 = "64 word"

text \<open>
  A floating-point value: not-a-number, the two infinities, negative zero, or a finite
  value given by the rational number it denotes (\<open>Fin 0\<close> is positive zero).
\<close>

datatype fval = NaN | PosInf | NegInf | NegZero | Fin rat

text \<open>
  Rounding to nearest, ties to even, into the format with \<open>p\<close> bits of precision and
  exponents from \<open>emin\<close> to \<open>emax\<close> (IEEE 754, the arithmetic of Go's \<open>float32\<close> and
  \<open>float64\<close>).
\<close>

definition pow2 :: "int \<Rightarrow> rat" where
  "pow2 k = (if 0 \<le> k then 2 ^ nat k else 1 / 2 ^ nat (- k))"

definition floor_log2 :: "rat \<Rightarrow> int" where
  "floor_log2 a = (if 1 \<le> a then bitlen \<lfloor>a\<rfloor> - 1 else - bitlen (\<lceil>1 / a\<rceil> - 1))"

definition round_half_even :: "rat \<Rightarrow> int" where
  "round_half_even t =
     (let f = \<lfloor>t\<rfloor>; r = t - of_int f
      in if r < 1 / 2 then f else if 1 / 2 < r then f + 1 else if even f then f else f + 1)"

definition fround :: "nat \<Rightarrow> int \<Rightarrow> int \<Rightarrow> rat \<Rightarrow> fval" where
  "fround p emin emax q =
     (if q = 0 then Fin 0
      else
        let e = max (floor_log2 \<bar>q\<bar>) emin;
            ulp = pow2 (e - int p + 1);
            r = of_int (round_half_even (\<bar>q\<bar> / ulp)) * ulp
        in if pow2 (emax + 1) \<le> r then (if 0 < q then PosInf else NegInf)
           else if r = 0 then (if 0 < q then Fin 0 else NegZero)
           else Fin (if 0 < q then r else - r))"

definition round32 :: "rat \<Rightarrow> fval" where
  "round32 = fround 24 (- 126) 127"

definition round64 :: "rat \<Rightarrow> fval" where
  "round64 = fround 53 (- 1022) 1023"

fun fadd :: "(rat \<Rightarrow> fval) \<Rightarrow> fval \<Rightarrow> fval \<Rightarrow> fval" where
  "fadd rnd NaN y = NaN"
| "fadd rnd x NaN = NaN"
| "fadd rnd PosInf NegInf = NaN"
| "fadd rnd NegInf PosInf = NaN"
| "fadd rnd PosInf y = PosInf"
| "fadd rnd x PosInf = PosInf"
| "fadd rnd NegInf y = NegInf"
| "fadd rnd x NegInf = NegInf"
| "fadd rnd NegZero y = y"
| "fadd rnd x NegZero = x"
| "fadd rnd (Fin a) (Fin b) = rnd (a + b)"

fun fneg :: "fval \<Rightarrow> fval" where
  "fneg NaN = NaN"
| "fneg PosInf = NegInf"
| "fneg NegInf = PosInf"
| "fneg NegZero = Fin 0"
| "fneg (Fin a) = (if a = 0 then NegZero else Fin (- a))"

definition fsub :: "(rat \<Rightarrow> fval) \<Rightarrow> fval \<Rightarrow> fval \<Rightarrow> fval" where
  "fsub rnd x y = fadd rnd x (fneg y)"

text \<open>The conversions \<open>float32(n)\<close> and \<open>float64(n)\<close> of an \<open>int64\<close>, and \<open>float32(f)\<close>
  of a \<open>float64\<close>.\<close>

definition float32_of_int64 :: "int64 \<Rightarrow> fval" where
  "float32_of_int64 n = round32 (of_int (sint n))"

definition float64_of_int64 :: "int64 \<Rightarrow> fval" where
  "float64_of_int64 n = round64 (of_int (sint n))"

fun float32_of_float64 :: "fval \<Rightarrow> fval" where
  "float32_of_float64 (Fin a) = round32 a"
| "float32_of_float64 x = x"

text \<open>
  Integers of the platform's width \<open>W\<close>: the conversion of an \<open>int64\<close> to \<open>int\<close> and to
  \<open>uint\<close> (or \<open>uintptr\<close>), and the wrap-around of a sum or difference.
\<close>

definition wrap_signed :: "nat \<Rightarrow> int \<Rightarrow> int" where
  "wrap_signed W i = (i + 2 ^ (W - 1)) mod 2 ^ W - 2 ^ (W - 1)"

definition wrap_unsigned :: "nat \<Rightarrow> int \<Rightarrow> int" where
  "wrap_unsigned W i = i mod 2 ^ W"

definition int_of_int64 :: "nat \<Rightarrow> int64 \<Rightarrow> int" where
  "int_of_int64 W n = wrap_signed W (sint n)"

definition uint_of_int64 :: "nat \<Rightarrow> int64 \<Rightarrow> int" where
  "uint_of_int64 W n = wrap_unsigned W (sint n)"

datatype 'a payload =
    VInt int
  | VInt8 "8 word"
  | VInt16 "16 word"
  | VInt32 "32 word"
  | VInt64 "64 word"
  | VUint int
  | VUintptr int
  | VUint8 "8 word"
  | VUint16 "16 word"
  | VUint32 "32 word"
  | VUint64 "64 word"
  | VFloat32 fval
  | VFloat64 fval
  | VOther 'a

subsection \<open>Items and the engine\<close>

record 'a Item =
  Object :: "'a payload"
  Expiration :: int64

text \<open>\<open>Expired\<close> reads the clock once; \<open>now\<close> is that reading. The comparison is signed.\<close>

definition Expired :: "'a Item \<Rightarrow> int64 \<Rightarrow> bool" where
  "Expired item now =
     (if Expiration item = 0 then False else sint now > sint (Expiration item))"

definition NoExpiration :: int64 where
  "NoExpiration = - 1"

definition DefaultExpiration :: int64 where
  "DefaultExpiration = 0"

text \<open>
  The callback has type \<open>func(string, any)\<close> and is run for its effect; \<open>'e\<close> is what one
  call of it does, and an operation returns the effects of the calls it made, in order.
  \<open>None\<close> is the nil function.
\<close>

record ('a, 'e) cache =
  defaultExpiration :: int64
  items :: "string \<rightharpoonup> 'a Item"
  onEvicted :: "(string \<Rightarrow> 'a payload \<Rightarrow> 'e) option"

datatype error = AlreadyExists | NotFound | WrongType

datatype panic = NilFunctionCall

subsection \<open>Writing and reading\<close>

text \<open>
  \<open>time.Now().Add(d).UnixNano()\<close> is the clock reading plus \<open>d\<close> in \<open>int64\<close>: \<open>Add\<close> is
  exact on the seconds and nanoseconds of the instant, and \<open>UnixNano\<close> multiplies and adds
  in \<open>int64\<close>, which wraps around.
\<close>

definition Set :: "('a, 'e) cache \<Rightarrow> int64 \<Rightarrow> string \<Rightarrow> 'a payload \<Rightarrow> int64
    \<Rightarrow> ('a, 'e) cache" where
  "Set c now k x d =
     (let d1 = (if d = DefaultExpiration then defaultExpiration c else d);
          e = (if sint d1 > 0 then now + d1 else 0)
      in c\<lparr>items := (items c)(k \<mapsto> \<lparr>Object = x, Expiration = e\<rparr>)\<rparr>)"

definition set_unlocked :: "('a, 'e) cache \<Rightarrow> int64 \<Rightarrow> string \<Rightarrow> 'a payload \<Rightarrow> int64
    \<Rightarrow> ('a, 'e) cache" where
  "set_unlocked c now k x d =
     (let d1 = (if d = DefaultExpiration then defaultExpiration c else d);
          e = (if sint d1 > 0 then now + d1 else 0)
      in c\<lparr>items := (items c)(k \<mapsto> \<lparr>Object = x, Expiration = e\<rparr>)\<rparr>)"

definition SetDefault :: "('a, 'e) cache \<Rightarrow> int64 \<Rightarrow> string \<Rightarrow> 'a payload
    \<Rightarrow> ('a, 'e) cache" where
  "SetDefault c now k x = Set c now k x DefaultExpiration"

text \<open>
  A result \<open>(value, ok)\<close> of the source is an option: \<open>Some v\<close> for \<open>(v, true)\<close> and \<open>None\<close>
  for the zero value with \<open>false\<close>.
\<close>

definition Get :: "('a, 'e) cache \<Rightarrow> int64 \<Rightarrow> string \<Rightarrow> 'a payload option" where
  "Get c now k =
     (case items c k of
        None \<Rightarrow> None
      | Some item \<Rightarrow> if Expired item now then None else Some (Object item))"

definition GetWithExpiration :: "('a, 'e) cache \<Rightarrow> int64 \<Rightarrow> string
    \<Rightarrow> ('a payload \<times> int64 option) option" where
  "GetWithExpiration c now k =
     (case items c k of
        None \<Rightarrow> None
      | Some item \<Rightarrow>
          if sint (Expiration item) > 0
          then (if sint now > sint (Expiration item) then None
                else Some (Object item, Some (Expiration item)))
          else Some (Object item, None))"

definition get :: "('a, 'e) cache \<Rightarrow> int64 \<Rightarrow> string \<Rightarrow> 'a payload option" where
  "get c now k =
     (case items c k of
        None \<Rightarrow> None
      | Some item \<Rightarrow> if Expired item now then None else Some (Object item))"

text \<open>
  An operation that returns an \<open>error\<close> returns the engine after the call and the error,
  \<open>None\<close> for nil. The three errors of the source are built by \<open>fmt.Errorf\<close>:
  \<open>AlreadyExists\<close> is "Item k already exists", \<open>NotFound\<close> is "Item k doesn't exist" (in
  \<open>Replace\<close>) and "Item k not found" (in the arithmetic operations), \<open>WrongType\<close> is "The
  value for k is not an integer" and "The value for k does not have type float32 or
  float64". \<open>Add\<close> and \<open>Replace\<close> read the clock twice: in \<open>get\<close> (\<open>now1\<close>) and then in
  \<open>set\<close> (\<open>now2\<close>).
\<close>

definition Add :: "('a, 'e) cache \<Rightarrow> int64 \<Rightarrow> int64 \<Rightarrow> string \<Rightarrow> 'a payload \<Rightarrow> int64
    \<Rightarrow> ('a, 'e) cache \<times> error option" where
  "Add c now1 now2 k x d =
     (case get c now1 k of
        Some _ \<Rightarrow> (c, Some AlreadyExists)
      | None \<Rightarrow> (set_unlocked c now2 k x d, None))"

definition Replace :: "('a, 'e) cache \<Rightarrow> int64 \<Rightarrow> int64 \<Rightarrow> string \<Rightarrow> 'a payload
    \<Rightarrow> int64 \<Rightarrow> ('a, 'e) cache \<times> error option" where
  "Replace c now1 now2 k x d =
     (case get c now1 k of
        None \<Rightarrow> (c, Some NotFound)
      | Some _ \<Rightarrow> (set_unlocked c now2 k x d, None))"

subsection \<open>Arithmetic on the payload\<close>

text \<open>
  The type switch of \<open>Increment\<close>: the new payload, or \<open>None\<close> in the default case. The
  conversion \<open>intN(n)\<close> of the \<open>int64\<close> keeps the low bits (\<open>ucast\<close>), and \<open>+\<close> on
  words wraps around.
\<close>

fun Increment_switch :: "nat \<Rightarrow> 'a payload \<Rightarrow> int64 \<Rightarrow> 'a payload option" where
  "Increment_switch W (VInt vo) n = Some (VInt (wrap_signed W (vo + int_of_int64 W n)))"
| "Increment_switch W (VInt8 vo) n = Some (VInt8 (vo + ucast n))"
| "Increment_switch W (VInt16 vo) n = Some (VInt16 (vo + ucast n))"
| "Increment_switch W (VInt32 vo) n = Some (VInt32 (vo + ucast n))"
| "Increment_switch W (VInt64 vo) n = Some (VInt64 (vo + n))"
| "Increment_switch W (VUint vo) n = Some (VUint (wrap_unsigned W (vo + uint_of_int64 W n)))"
| "Increment_switch W (VUintptr vo) n =
     Some (VUintptr (wrap_unsigned W (vo + uint_of_int64 W n)))"
| "Increment_switch W (VUint8 vo) n = Some (VUint8 (vo + ucast n))"
| "Increment_switch W (VUint16 vo) n = Some (VUint16 (vo + ucast n))"
| "Increment_switch W (VUint32 vo) n = Some (VUint32 (vo + ucast n))"
| "Increment_switch W (VUint64 vo) n = Some (VUint64 (vo + ucast n))"
| "Increment_switch W (VFloat32 vo) n = Some (VFloat32 (fadd round32 vo (float32_of_int64 n)))"
| "Increment_switch W (VFloat64 vo) n = Some (VFloat64 (fadd round64 vo (float64_of_int64 n)))"
| "Increment_switch W (VOther vo) n = None"

fun Decrement_switch :: "nat \<Rightarrow> 'a payload \<Rightarrow> int64 \<Rightarrow> 'a payload option" where
  "Decrement_switch W (VInt vo) n = Some (VInt (wrap_signed W (vo - int_of_int64 W n)))"
| "Decrement_switch W (VInt8 vo) n = Some (VInt8 (vo - ucast n))"
| "Decrement_switch W (VInt16 vo) n = Some (VInt16 (vo - ucast n))"
| "Decrement_switch W (VInt32 vo) n = Some (VInt32 (vo - ucast n))"
| "Decrement_switch W (VInt64 vo) n = Some (VInt64 (vo - n))"
| "Decrement_switch W (VUint vo) n = Some (VUint (wrap_unsigned W (vo - uint_of_int64 W n)))"
| "Decrement_switch W (VUintptr vo) n =
     Some (VUintptr (wrap_unsigned W (vo - uint_of_int64 W n)))"
| "Decrement_switch W (VUint8 vo) n = Some (VUint8 (vo - ucast n))"
| "Decrement_switch W (VUint16 vo) n = Some (VUint16 (vo - ucast n))"
| "Decrement_switch W (VUint32 vo) n = Some (VUint32 (vo - ucast n))"
| "Decrement_switch W (VUint64 vo) n = Some (VUint64 (vo - ucast n))"
| "Decrement_switch W (VFloat32 vo) n = Some (VFloat32 (fsub round32 vo (float32_of_int64 n)))"
| "Decrement_switch W (VFloat64 vo) n = Some (VFloat64 (fsub round64 vo (float64_of_int64 n)))"
| "Decrement_switch W (VOther vo) n = None"

fun IncrementFloat_switch :: "'a payload \<Rightarrow> fval \<Rightarrow> 'a payload option" where
  "IncrementFloat_switch (VFloat32 vo) n = Some (VFloat32 (fadd round32 vo (float32_of_float64 n)))"
| "IncrementFloat_switch (VFloat64 vo) n = Some (VFloat64 (fadd round64 vo n))"
| "IncrementFloat_switch vo n = None"

fun DecrementFloat_switch :: "'a payload \<Rightarrow> fval \<Rightarrow> 'a payload option" where
  "DecrementFloat_switch (VFloat32 vo) n = Some (VFloat32 (fsub round32 vo (float32_of_float64 n)))"
| "DecrementFloat_switch (VFloat64 vo) n = Some (VFloat64 (fsub round64 vo n))"
| "DecrementFloat_switch vo n = None"

text \<open>
  The four operations share their frame: look the key up, fail when it is missing or
  expired, run the switch on the payload, and store the item back with the new payload.
\<close>

definition Increment :: "nat \<Rightarrow> ('a, 'e) cache \<Rightarrow> int64 \<Rightarrow> string \<Rightarrow> int64
    \<Rightarrow> ('a, 'e) cache \<times> error option" where
  "Increment W c now k n =
     (case items c k of
        None \<Rightarrow> (c, Some NotFound)
      | Some v \<Rightarrow>
          if Expired v now then (c, Some NotFound)
          else (case Increment_switch W (Object v) n of
                  None \<Rightarrow> (c, Some WrongType)
                | Some vo \<Rightarrow> (c\<lparr>items := (items c)(k \<mapsto> v\<lparr>Object := vo\<rparr>)\<rparr>, None)))"

definition Decrement :: "nat \<Rightarrow> ('a, 'e) cache \<Rightarrow> int64 \<Rightarrow> string \<Rightarrow> int64
    \<Rightarrow> ('a, 'e) cache \<times> error option" where
  "Decrement W c now k n =
     (case items c k of
        None \<Rightarrow> (c, Some NotFound)
      | Some v \<Rightarrow>
          if Expired v now then (c, Some NotFound)
          else (case Decrement_switch W (Object v) n of
                  None \<Rightarrow> (c, Some WrongType)
                | Some vo \<Rightarrow> (c\<lparr>items := (items c)(k \<mapsto> v\<lparr>Object := vo\<rparr>)\<rparr>, None)))"

definition IncrementFloat :: "('a, 'e) cache \<Rightarrow> int64 \<Rightarrow> string \<Rightarrow> fval
    \<Rightarrow> ('a, 'e) cache \<times> error option" where
  "IncrementFloat c now k n =
     (case items c k of
        None \<Rightarrow> (c, Some NotFound)
      | Some v \<Rightarrow>
          if Expired v now then (c, Some NotFound)
          else (case IncrementFloat_switch (Object v) n of
                  None \<Rightarrow> (c, Some WrongType)
                | Some vo \<Rightarrow> (c\<lparr>items := (items c)(k \<mapsto> v\<lparr>Object := vo\<rparr>)\<rparr>, None)))"

definition DecrementFloat :: "('a, 'e) cache \<Rightarrow> int64 \<Rightarrow> string \<Rightarrow> fval
    \<Rightarrow> ('a, 'e) cache \<times> error option" where
  "DecrementFloat c now k n =
     (case items c k of
        None \<Rightarrow> (c, Some NotFound)
      | Some v \<Rightarrow>
          if Expired v now then (c, Some NotFound)
          else (case DecrementFloat_switch (Object v) n of
                  None \<Rightarrow> (c, Some WrongType)
                | Some vo \<Rightarrow> (c\<lparr>items := (items c)(k \<mapsto> v\<lparr>Object := vo\<rparr>)\<rparr>, None)))"

subsection \<open>Deleting\<close>

text \<open>
  \<open>delete\<close> removes the key and reports the removed payload only when a callback is
  registered. \<open>Delete\<close> then calls \<open>c.onEvicted\<close>; calling the nil function would panic, and
  the model has that branch.
\<close>

definition delete :: "('a, 'e) cache \<Rightarrow> string \<Rightarrow> ('a, 'e) cache \<times> 'a payload option" where
  "delete c k =
     (case (onEvicted c, items c k) of
        (Some f, Some v) \<Rightarrow> (c\<lparr>items := (items c)(k := None)\<rparr>, Some (Object v))
      | _ \<Rightarrow> (c\<lparr>items := (items c)(k := None)\<rparr>, None))"

definition call_onEvicted :: "('a, 'e) cache \<Rightarrow> string \<Rightarrow> 'a payload \<Rightarrow> panic + 'e" where
  "call_onEvicted c k v = (case onEvicted c of None \<Rightarrow> Inl NilFunctionCall | Some f \<Rightarrow> Inr (f k v))"

definition Delete :: "('a, 'e) cache \<Rightarrow> string \<Rightarrow> panic + ('a, 'e) cache \<times> 'e list" where
  "Delete c k =
     (case delete c k of
        (c1, Some v) \<Rightarrow>
          (case call_onEvicted c1 k v of Inl p \<Rightarrow> Inl p | Inr e \<Rightarrow> Inr (c1, [e]))
      | (c1, None) \<Rightarrow> Inr (c1, []))"

text \<open>
  \<open>DeleteExpired\<close> ranges over the table in an order Go leaves unspecified: \<open>ks\<close> is the
  order of this run, a list of the keys of the table. A key whose entry is gone when the
  loop reaches it is skipped, as \<open>range\<close> does. The loop collects the evicted pairs; the
  callbacks run after it, in the order collected.
\<close>

fun DeleteExpired_loop :: "int64 \<Rightarrow> string list \<Rightarrow> ('a, 'e) cache \<Rightarrow> (string \<times> 'a payload) list
    \<Rightarrow> ('a, 'e) cache \<times> (string \<times> 'a payload) list" where
  "DeleteExpired_loop now [] c evictedItems = (c, evictedItems)"
| "DeleteExpired_loop now (k # ks) c evictedItems =
     (case items c k of
        None \<Rightarrow> DeleteExpired_loop now ks c evictedItems
      | Some v \<Rightarrow>
          if sint (Expiration v) > 0 \<and> sint now > sint (Expiration v)
          then (case delete c k of
                  (c1, Some ov) \<Rightarrow> DeleteExpired_loop now ks c1 (evictedItems @ [(k, ov)])
                | (c1, None) \<Rightarrow> DeleteExpired_loop now ks c1 evictedItems)
          else DeleteExpired_loop now ks c evictedItems)"

fun call_all :: "('a, 'e) cache \<Rightarrow> (string \<times> 'a payload) list \<Rightarrow> panic + 'e list" where
  "call_all c [] = Inr []"
| "call_all c ((k, v) # evictedItems) =
     (case call_onEvicted c k v of
        Inl p \<Rightarrow> Inl p
      | Inr e \<Rightarrow> (case call_all c evictedItems of Inl p \<Rightarrow> Inl p | Inr es \<Rightarrow> Inr (e # es)))"

definition DeleteExpired :: "string list \<Rightarrow> ('a, 'e) cache \<Rightarrow> int64
    \<Rightarrow> panic + ('a, 'e) cache \<times> 'e list" where
  "DeleteExpired ks c now =
     (case DeleteExpired_loop now ks c [] of
        (c1, evictedItems) \<Rightarrow>
          (case call_all c1 evictedItems of Inl p \<Rightarrow> Inl p | Inr es \<Rightarrow> Inr (c1, es)))"

definition OnEvicted :: "('a, 'e) cache \<Rightarrow> (string \<Rightarrow> 'a payload \<Rightarrow> 'e) option \<Rightarrow> ('a, 'e) cache" where
  "OnEvicted c f = c\<lparr>onEvicted := f\<rparr>"

subsection \<open>Construction\<close>

definition newCache :: "int64 \<Rightarrow> (string \<rightharpoonup> 'a Item) \<Rightarrow> ('a, 'e) cache" where
  "newCache de m =
     \<lparr>defaultExpiration = (if de = DefaultExpiration then NoExpiration else de),
      items = m, onEvicted = None\<rparr>"

definition newCacheWithJanitor :: "int64 \<Rightarrow> int64 \<Rightarrow> (string \<rightharpoonup> 'a Item)
    \<Rightarrow> ('a, 'e) cache" where
  "newCacheWithJanitor de ci m = newCache de m"

definition New :: "int64 \<Rightarrow> int64 \<Rightarrow> ('a, 'e) cache" where
  "New de ci = newCacheWithJanitor de ci Map.empty"

subsection \<open>Notions of the specification\<close>

text \<open>
  A live entry, in the words of the specification's glossary: an entry present in the table
  whose expiration is unset or not yet reached at the clock reading \<open>now\<close>.
\<close>

fun live :: "'a Item option \<Rightarrow> int64 \<Rightarrow> bool" where
  "live None now = False"
| "live (Some item) now = (Expiration item = 0 \<or> sint now \<le> sint (Expiration item))"

text \<open>
  What a sweep at the clock reading \<open>now\<close> takes: an entry whose expiration is positive and
  earlier than \<open>now\<close>.
\<close>

fun swept :: "int64 \<Rightarrow> 'a Item option \<Rightarrow> bool" where
  "swept now None = False"
| "swept now (Some item) = (0 < sint (Expiration item) \<and> sint (Expiration item) < sint now)"

definition after_sweep :: "int64 \<Rightarrow> ('a, 'e) cache \<Rightarrow> ('a, 'e) cache" where
  "after_sweep now c = c\<lparr>items := (\<lambda>k. if swept now (items c k) then None else items c k)\<rparr>"

text \<open>The pairs a sweep hands to the callback, in the order \<open>ks\<close> of the run.\<close>

definition evicted_pairs :: "int64 \<Rightarrow> ('a, 'e) cache \<Rightarrow> string list \<Rightarrow> (string \<times> 'a payload) list" where
  "evicted_pairs now c ks =
     List.map_filter
       (\<lambda>k. case items c k of
              None \<Rightarrow> None
            | Some item \<Rightarrow> if swept now (Some item) then Some (k, Object item) else None) ks"

text \<open>
  The kind of a payload (the closed union of the design notes), the integer an integer
  payload denotes, the width and signedness of a kind on a platform of width \<open>W\<close>, and
  the reduction of an integer into the range of a kind modulo two to the width.
\<close>

datatype kind =
    KInt | KInt8 | KInt16 | KInt32 | KInt64
  | KUint | KUintptr | KUint8 | KUint16 | KUint32 | KUint64
  | KFloat32 | KFloat64 | KOther

fun kind_of :: "'a payload \<Rightarrow> kind" where
  "kind_of (VInt x) = KInt"
| "kind_of (VInt8 x) = KInt8"
| "kind_of (VInt16 x) = KInt16"
| "kind_of (VInt32 x) = KInt32"
| "kind_of (VInt64 x) = KInt64"
| "kind_of (VUint x) = KUint"
| "kind_of (VUintptr x) = KUintptr"
| "kind_of (VUint8 x) = KUint8"
| "kind_of (VUint16 x) = KUint16"
| "kind_of (VUint32 x) = KUint32"
| "kind_of (VUint64 x) = KUint64"
| "kind_of (VFloat32 x) = KFloat32"
| "kind_of (VFloat64 x) = KFloat64"
| "kind_of (VOther x) = KOther"

text \<open>Signed kinds are read in two's complement, unsigned kinds as they are.\<close>

fun int_value :: "'a payload \<Rightarrow> int option" where
  "int_value (VInt x) = Some x"
| "int_value (VInt8 x) = Some (sint x)"
| "int_value (VInt16 x) = Some (sint x)"
| "int_value (VInt32 x) = Some (sint x)"
| "int_value (VInt64 x) = Some (sint x)"
| "int_value (VUint x) = Some x"
| "int_value (VUintptr x) = Some x"
| "int_value (VUint8 x) = Some (uint x)"
| "int_value (VUint16 x) = Some (uint x)"
| "int_value (VUint32 x) = Some (uint x)"
| "int_value (VUint64 x) = Some (uint x)"
| "int_value (VFloat32 x) = None"
| "int_value (VFloat64 x) = None"
| "int_value (VOther x) = None"

fun kind_bits :: "nat \<Rightarrow> kind \<Rightarrow> nat" where
  "kind_bits W KInt = W"
| "kind_bits W KInt8 = 8"
| "kind_bits W KInt16 = 16"
| "kind_bits W KInt32 = 32"
| "kind_bits W KInt64 = 64"
| "kind_bits W KUint = W"
| "kind_bits W KUintptr = W"
| "kind_bits W KUint8 = 8"
| "kind_bits W KUint16 = 16"
| "kind_bits W KUint32 = 32"
| "kind_bits W KUint64 = 64"
| "kind_bits W KFloat32 = 32"
| "kind_bits W KFloat64 = 64"
| "kind_bits W KOther = 0"

fun kind_signed :: "kind \<Rightarrow> bool" where
  "kind_signed KInt = True"
| "kind_signed KInt8 = True"
| "kind_signed KInt16 = True"
| "kind_signed KInt32 = True"
| "kind_signed KInt64 = True"
| "kind_signed kd = False"

definition wrap_kind :: "nat \<Rightarrow> kind \<Rightarrow> int \<Rightarrow> int" where
  "wrap_kind W kd i =
     (if kind_signed kd then (i + 2 ^ (kind_bits W kd - 1)) mod 2 ^ kind_bits W kd
                              - 2 ^ (kind_bits W kd - 1)
      else i mod 2 ^ kind_bits W kd)"

definition kind_min :: "nat \<Rightarrow> kind \<Rightarrow> int" where
  "kind_min W kd = (if kind_signed kd then - (2 ^ (kind_bits W kd - 1)) else 0)"

definition kind_max :: "nat \<Rightarrow> kind \<Rightarrow> int" where
  "kind_max W kd =
     (if kind_signed kd then 2 ^ (kind_bits W kd - 1) - 1 else 2 ^ kind_bits W kd - 1)"

text \<open>
  An engine constructed with the default expiration \<open>de\<close> and the cleanup interval \<open>ci\<close>:
  what \<open>New\<close> returns, and what any operation leaves of such an engine.
\<close>

inductive engine_of :: "int64 \<Rightarrow> int64 \<Rightarrow> ('a, 'e) cache \<Rightarrow> bool" for de ci where
  by_New: "engine_of de ci (New de ci)"
| by_Set: "engine_of de ci c \<Longrightarrow> engine_of de ci (Set c now k x d)"
| by_SetDefault: "engine_of de ci c \<Longrightarrow> engine_of de ci (SetDefault c now k x)"
| by_Add: "engine_of de ci c \<Longrightarrow> engine_of de ci (fst (Add c now1 now2 k x d))"
| by_Replace: "engine_of de ci c \<Longrightarrow> engine_of de ci (fst (Replace c now1 now2 k x d))"
| by_Increment: "engine_of de ci c \<Longrightarrow> engine_of de ci (fst (Increment W c now k n))"
| by_Decrement: "engine_of de ci c \<Longrightarrow> engine_of de ci (fst (Decrement W c now k n))"
| by_IncrementFloat: "engine_of de ci c \<Longrightarrow> engine_of de ci (fst (IncrementFloat c now k f))"
| by_DecrementFloat: "engine_of de ci c \<Longrightarrow> engine_of de ci (fst (DecrementFloat c now k f))"
| by_Delete: "engine_of de ci c \<Longrightarrow> Delete c k = Inr (c1, es) \<Longrightarrow> engine_of de ci c1"
| by_DeleteExpired:
    "engine_of de ci c \<Longrightarrow> DeleteExpired ks c now = Inr (c1, es) \<Longrightarrow> engine_of de ci c1"
| by_OnEvicted: "engine_of de ci c \<Longrightarrow> engine_of de ci (OnEvicted c g)"

section \<open>Properties\<close>

subsection \<open>Lookup\<close>

lemma get_eq_Get: "get c now k = Get c now k"
  by (simp add: get_def Get_def)

lemma set_unlocked_eq_Set: "set_unlocked c now k x d = Set c now k x d"
  by (simp add: set_unlocked_def Set_def)

lemma Get_Some_iff_live: "(\<exists>v. Get c now k = Some v) = live (items c k) now"
  by (cases "items c k") (auto simp: Get_def Expired_def)

lemma Get_None_iff_not_live: "(Get c now k = None) = (\<not> live (items c k) now)"
  using Get_Some_iff_live [of c now k] by auto

subsection \<open>Conditional writes\<close>

text \<open>
  Claim C4. \<open>Add\<close> fails with \<open>AlreadyExists\<close> exactly when a live entry for the key is
  present at the call; the engine is then unchanged; otherwise \<open>Add\<close> does what \<open>Set\<close> does
  and returns no error.
\<close>

theorem Add_AlreadyExists_iff_live:
  "Add c now1 now2 k x d =
     (if live (items c k) now1 then (c, Some AlreadyExists) else (Set c now2 k x d, None))"
proof (cases "Get c now1 k")
  case None
  then show ?thesis
    using Get_None_iff_not_live [of c now1 k]
    by (simp add: Add_def get_eq_Get set_unlocked_eq_Set)
next
  case (Some v)
  then show ?thesis
    using Get_Some_iff_live [of c now1 k]
    by (auto simp: Add_def get_eq_Get)
qed

text \<open>
  Claim C5. \<open>Replace\<close> fails with \<open>NotFound\<close> exactly when no live entry for the key is
  present at the call (an expired entry still in the table counts as absent); the engine
  is then unchanged; otherwise \<open>Replace\<close> does what \<open>Set\<close> does and returns no error.
\<close>

theorem Replace_NotFound_iff_not_live:
  "Replace c now1 now2 k x d =
     (if live (items c k) now1 then (Set c now2 k x d, None) else (c, Some NotFound))"
proof (cases "Get c now1 k")
  case None
  then show ?thesis
    using Get_None_iff_not_live [of c now1 k]
    by (simp add: Replace_def get_eq_Get)
next
  case (Some v)
  then show ?thesis
    using Get_Some_iff_live [of c now1 k]
    by (auto simp: Replace_def get_eq_Get set_unlocked_eq_Set)
qed

subsection \<open>Delete\<close>

lemma delete_eq:
  "delete c k =
     (c\<lparr>items := (items c)(k := None)\<rparr>,
      case onEvicted c of None \<Rightarrow> None | Some f \<Rightarrow> map_option Object (items c k))"
  by (simp add: delete_def split: option.splits)

text \<open>
  Claim C7. \<open>Delete\<close> never fails and always removes the key. With a callback registered
  and an entry in the table, expired or not (no clock is read), the callback runs once, on
  the key and the removed payload; with no entry or no callback it does not run.
\<close>

theorem Delete_removes_and_calls_once:
  "Delete c k =
     Inr (c\<lparr>items := (items c)(k := None)\<rparr>,
          case onEvicted c of
            None \<Rightarrow> []
          | Some f \<Rightarrow> (case items c k of None \<Rightarrow> [] | Some item \<Rightarrow> [f k (Object item)]))"
proof (cases "onEvicted c")
  case None
  then show ?thesis
    by (simp add: Delete_def delete_eq)
next
  case cb: (Some f)
  show ?thesis
  proof (cases "items c k")
    case None
    then show ?thesis
      using cb by (simp add: Delete_def delete_eq)
  next
    case (Some item)
    then have "delete c k = (c\<lparr>items := (items c)(k := None)\<rparr>, Some (Object item))"
      using cb by (simp add: delete_eq)
    moreover have "call_onEvicted (c\<lparr>items := (items c)(k := None)\<rparr>) k (Object item)
        = Inr (f k (Object item))"
      using cb by (simp add: call_onEvicted_def)
    ultimately show ?thesis
      using cb Some by (simp add: Delete_def)
  qed
qed

subsection \<open>The sweep\<close>

lemma delete_fst: "fst (delete c k) = c\<lparr>items := (items c)(k := None)\<rparr>"
  by (simp add: delete_eq)

lemma DeleteExpired_loop_fst:
  "fst (DeleteExpired_loop now ks c acc) =
     c\<lparr>items := (\<lambda>k. if k \<in> set ks \<and> swept now (items c k) then None else items c k)\<rparr>"
proof (induction ks arbitrary: c acc)
  case Nil
  show ?case by simp
next
  case (Cons k ks)
  show ?case
  proof (cases "items c k")
    case None
    then show ?thesis
      by (auto simp: Cons.IH intro!: arg_cong [where f = "\<lambda>m. c\<lparr>items := m\<rparr>"])
  next
    case (Some v)
    show ?thesis
    proof (cases "swept now (Some v)")
      case True
      obtain c1 r where d: "delete c k = (c1, r)"
        by (cases "delete c k")
      then have c1: "c1 = c\<lparr>items := (items c)(k := None)\<rparr>"
        using delete_fst [of c k] by simp
      have "fst (DeleteExpired_loop now (k # ks) c acc) =
              c1\<lparr>items := (\<lambda>j. if j \<in> set ks \<and> swept now (items c1 j) then None else items c1 j)\<rparr>"
        using Some True d by (cases r) (simp_all add: Cons.IH)
      also have "\<dots> =
              c\<lparr>items := (\<lambda>j. if j \<in> set (k # ks) \<and> swept now (items c j) then None else items c j)\<rparr>"
        using Some True by (auto simp: c1 intro!: arg_cong [where f = "\<lambda>m. c\<lparr>items := m\<rparr>"])
      finally show ?thesis .
    next
      case False
      then show ?thesis
        using Some by (auto simp: Cons.IH intro!: arg_cong [where f = "\<lambda>m. c\<lparr>items := m\<rparr>"])
    qed
  qed
qed

lemma evicted_pairs_Nil [simp]: "evicted_pairs now c [] = []"
  by (simp add: evicted_pairs_def)

lemma evicted_pairs_Cons:
  "evicted_pairs now c (k # ks) =
     (case items c k of
        None \<Rightarrow> evicted_pairs now c ks
      | Some item \<Rightarrow>
          if swept now (Some item) then (k, Object item) # evicted_pairs now c ks
          else evicted_pairs now c ks)"
  by (simp add: evicted_pairs_def split: option.splits)

lemma evicted_pairs_cong:
  "(\<And>k. k \<in> set ks \<Longrightarrow> items c1 k = items c k) \<Longrightarrow>
     evicted_pairs now c1 ks = evicted_pairs now c ks"
  by (induction ks) (simp_all add: evicted_pairs_Cons split: option.splits)

lemma DeleteExpired_loop_snd:
  "distinct ks \<Longrightarrow>
     snd (DeleteExpired_loop now ks c acc) =
       acc @ (case onEvicted c of None \<Rightarrow> [] | Some f \<Rightarrow> evicted_pairs now c ks)"
proof (induction ks arbitrary: c acc)
  case Nil
  show ?case by (simp split: option.splits)
next
  case (Cons k ks)
  then have dist: "distinct ks" and notin: "k \<notin> set ks"
    by simp_all
  show ?case
  proof (cases "items c k")
    case None
    then show ?thesis
      using Cons.IH [OF dist] by (simp add: evicted_pairs_Cons split: option.splits)
  next
    case (Some v)
    show ?thesis
    proof (cases "swept now (Some v)")
      case False
      then show ?thesis
        using Some Cons.IH [OF dist] by (auto simp: evicted_pairs_Cons split: option.splits)
    next
      case True
      let ?c1 = "c\<lparr>items := (items c)(k := None)\<rparr>"
      have same: "evicted_pairs now ?c1 ks = evicted_pairs now c ks"
        using notin by (intro evicted_pairs_cong) auto
      show ?thesis
      proof (cases "onEvicted c")
        case None
        then show ?thesis
          using Some True Cons.IH [OF dist, of ?c1] by (simp add: delete_eq)
      next
        case (Some f)
        then show ?thesis
          using \<open>items c k = Some v\<close> True Cons.IH [OF dist, of ?c1] same
          by (simp add: delete_eq evicted_pairs_Cons)
      qed
    qed
  qed
qed

lemma call_all_None: "onEvicted c = None \<Longrightarrow> call_all c [] = Inr []"
  by simp

lemma call_all_Some:
  "onEvicted c = Some f \<Longrightarrow> call_all c evictedItems = Inr (map (\<lambda>(k, v). f k v) evictedItems)"
  by (induction evictedItems) (auto simp: call_onEvicted_def)

text \<open>
  One sweep, for any order of the run without repeated keys: it returns normally, the
  table loses the entries of the run that are positive and earlier than \<open>now\<close>, and the
  callback, when there is one, runs once on each of them.
\<close>

lemma DeleteExpired_eq:
  assumes "distinct ks"
  shows "DeleteExpired ks c now =
     Inr (c\<lparr>items := (\<lambda>k. if k \<in> set ks \<and> swept now (items c k) then None else items c k)\<rparr>,
          case onEvicted c of
            None \<Rightarrow> []
          | Some f \<Rightarrow> map (\<lambda>(k, v). f k v) (evicted_pairs now c ks))"
proof -
  obtain c1 ev where l: "DeleteExpired_loop now ks c [] = (c1, ev)"
    by (cases "DeleteExpired_loop now ks c []")
  have c1: "c1 = c\<lparr>items := (\<lambda>k. if k \<in> set ks \<and> swept now (items c k) then None else items c k)\<rparr>"
    using DeleteExpired_loop_fst [of now ks c "[]"] l by simp
  have ev: "ev = (case onEvicted c of None \<Rightarrow> [] | Some f \<Rightarrow> evicted_pairs now c ks)"
    using DeleteExpired_loop_snd [OF assms, of now c "[]"] l by simp
  show ?thesis
  proof (cases "onEvicted c")
    case None
    then show ?thesis
      using l c1 ev by (simp add: DeleteExpired_def)
  next
    case (Some f)
    then have "onEvicted c1 = Some f"
      by (simp add: c1)
    then show ?thesis
      using l c1 ev Some by (simp add: DeleteExpired_def call_all_Some)
  qed
qed

lemma swept_in_dom: "swept now (items c k) \<Longrightarrow> k \<in> dom (items c)"
  by (cases "items c k") auto

lemma DeleteExpired_dom:
  assumes "distinct ks" and "set ks = dom (items c)"
  shows "DeleteExpired ks c now =
     Inr (after_sweep now c,
          case onEvicted c of
            None \<Rightarrow> []
          | Some f \<Rightarrow> map (\<lambda>(k, v). f k v) (evicted_pairs now c ks))"
proof -
  have "(\<lambda>k. if k \<in> set ks \<and> swept now (items c k) then None else items c k) =
        (\<lambda>k. if swept now (items c k) then None else items c k)"
    using assms(2) swept_in_dom [of now c] by auto
  then show ?thesis
    by (simp add: DeleteExpired_eq [OF assms(1)] after_sweep_def)
qed

lemma swept_after_sweep: "swept now (items (after_sweep now c) k) = False"
  by (simp add: after_sweep_def)

lemma after_sweep_idem: "after_sweep now (after_sweep now c) = after_sweep now c"
proof -
  have "(\<lambda>k. if swept now (items (after_sweep now c) k) then None else items (after_sweep now c) k) =
        items (after_sweep now c)"
    by (simp add: swept_after_sweep)
  then show ?thesis
    by (simp add: after_sweep_def [of now "after_sweep now c"])
qed

lemma evicted_pairs_after_sweep: "evicted_pairs now (after_sweep now c) ks = []"
proof (induction ks)
  case Nil
  show ?case by simp
next
  case (Cons k ks)
  show ?case
  proof (cases "items (after_sweep now c) k")
    case None
    then show ?thesis
      by (simp add: evicted_pairs_Cons Cons.IH)
  next
    case (Some item)
    then have "\<not> swept now (Some item)"
      using swept_after_sweep [of now c k] by simp
    then show ?thesis
      using Some by (simp add: evicted_pairs_Cons Cons.IH)
  qed
qed

text \<open>
  Claim C6, as the code has it. For a run over the keys of the table, \<open>DeleteExpired\<close>
  returns normally and removes exactly the entries whose expiration is positive and earlier
  than the one clock reading \<open>now\<close>; the callback, when registered, runs once on each of
  them. An entry whose expiration is zero (or negative) stays. A second run at the same
  reading, in any order of the keys left, changes nothing and makes no call.
\<close>

theorem DeleteExpired_exactly_swept:
  assumes "distinct ks" and "set ks = dom (items c)"
    and "distinct ks2" and "set ks2 = dom (items (after_sweep now c))"
  shows "DeleteExpired ks c now =
           Inr (after_sweep now c,
                case onEvicted c of
                  None \<Rightarrow> []
                | Some f \<Rightarrow> map (\<lambda>(k, v). f k v) (evicted_pairs now c ks))
       \<and> items (after_sweep now c) k =
           (case items c k of
              None \<Rightarrow> None
            | Some item \<Rightarrow>
                if 0 < sint (Expiration item) \<and> sint (Expiration item) < sint now then None
                else Some item)
       \<and> DeleteExpired ks2 (after_sweep now c) now = Inr (after_sweep now c, [])"
proof (intro conjI)
  show "DeleteExpired ks c now =
           Inr (after_sweep now c,
                case onEvicted c of
                  None \<Rightarrow> []
                | Some f \<Rightarrow> map (\<lambda>(k, v). f k v) (evicted_pairs now c ks))"
    by (rule DeleteExpired_dom [OF assms(1,2)])
  show "items (after_sweep now c) k =
           (case items c k of
              None \<Rightarrow> None
            | Some item \<Rightarrow>
                if 0 < sint (Expiration item) \<and> sint (Expiration item) < sint now then None
                else Some item)"
    by (cases "items c k") (simp_all add: after_sweep_def)
  show "DeleteExpired ks2 (after_sweep now c) now = Inr (after_sweep now c, [])"
    by (simp add: DeleteExpired_dom [OF assms(3,4)] after_sweep_idem evicted_pairs_after_sweep
        split: option.splits)
qed

theorem DeleteExpired_exactly_swept_witness:
  "DeleteExpired [''a'', ''b'']
     \<lparr>defaultExpiration = - 1,
      items = [''a'' \<mapsto> \<lparr>Object = VInt 1 :: unit payload, Expiration = 15\<rparr>,
               ''b'' \<mapsto> \<lparr>Object = VInt 2, Expiration = 0\<rparr>],
      onEvicted = Some (\<lambda>k v. (k, v))\<rparr> 20
     = Inr (\<lparr>defaultExpiration = - 1,
            items = [''b'' \<mapsto> \<lparr>Object = VInt 2, Expiration = 0\<rparr>],
            onEvicted = Some (\<lambda>k v. (k, v))\<rparr>, [(''a'', VInt 1)])
   \<and> DeleteExpired [''b'']
     \<lparr>defaultExpiration = - 1,
      items = [''b'' \<mapsto> \<lparr>Object = VInt 2 :: unit payload, Expiration = 0\<rparr>],
      onEvicted = Some (\<lambda>k v. (k, v))\<rparr> 20
     = Inr (\<lparr>defaultExpiration = - 1,
            items = [''b'' \<mapsto> \<lparr>Object = VInt 2, Expiration = 0\<rparr>],
            onEvicted = Some (\<lambda>k v. (k, v))\<rparr>, [])"
proof -
  let ?c = "\<lparr>defaultExpiration = - 1,
      items = [''a'' \<mapsto> \<lparr>Object = VInt 1 :: unit payload, Expiration = 15\<rparr>,
               ''b'' \<mapsto> \<lparr>Object = VInt 2, Expiration = 0\<rparr>],
      onEvicted = Some (\<lambda>k v. (k, v))\<rparr>"
  let ?c1 = "\<lparr>defaultExpiration = - 1,
      items = [''b'' \<mapsto> \<lparr>Object = VInt 2 :: unit payload, Expiration = 0\<rparr>],
      onEvicted = Some (\<lambda>k v. (k, v))\<rparr>"
  have a: "after_sweep 20 ?c = ?c1"
    by (simp add: after_sweep_def fun_eq_iff)
  have h1: "distinct [''a'', ''b'']" and h3: "distinct [''b'']"
    by simp_all
  have h2: "set [''a'', ''b''] = dom (items ?c)"
    by auto
  have h4: "set [''b''] = dom (items (after_sweep 20 ?c))"
    by (simp add: a)
  show ?thesis
    using DeleteExpired_exactly_swept [OF h1 h2 h3 h4, of "''a''"]
    by (simp add: a evicted_pairs_def)
qed

text \<open>
  The claim as written, with "non-zero" for "positive", fails on an entry whose expiration
  is negative. \<open>Set\<close> stores one when the clock reading plus the duration passes the top
  of \<open>int64\<close>: written at a clock reading of November 2026 with the largest duration,
  the entry has a non-zero expiration earlier than the next reading, and the sweep at that
  reading leaves it in the table.
\<close>

theorem DeleteExpired_nonzero_counterexample:
  "items (Set (New 0 0 :: (unit, unit) cache) 1793559600000000000 ''k'' (VInt 5)
            9223372036854775807) ''k''
     = Some \<lparr>Object = VInt 5, Expiration = 11016931636854775807\<rparr>
   \<and> (11016931636854775807 :: int64) \<noteq> 0
   \<and> sint (11016931636854775807 :: int64) < sint (1793559600000000001 :: int64)
   \<and> DeleteExpired [''k'']
        (Set (New 0 0 :: (unit, unit) cache) 1793559600000000000 ''k'' (VInt 5)
           9223372036854775807) 1793559600000000001
     = Inr (Set (New 0 0 :: (unit, unit) cache) 1793559600000000000 ''k'' (VInt 5)
              9223372036854775807, [])"
  by (simp add: Set_def New_def newCacheWithJanitor_def newCache_def DefaultExpiration_def
      NoExpiration_def DeleteExpired_def)

subsection \<open>Delete and the sweep, one after the other\<close>

lemma evicted_pairs_keys: "fst ` set (evicted_pairs now c ks) \<subseteq> set ks"
  by (induction ks) (auto simp: evicted_pairs_Cons split: option.splits if_splits)

lemma evicted_pairs_filter_key:
  assumes "distinct ks"
  shows "filter (\<lambda>(j, v). j = k) (evicted_pairs now c ks) =
     (case items c k of
        None \<Rightarrow> []
      | Some item \<Rightarrow> if k \<in> set ks \<and> swept now (Some item) then [(k, Object item)] else [])"
  using assms
proof (induction ks)
  case Nil
  show ?case by (simp split: option.splits)
next
  case (Cons a ks)
  then have IH: "filter (\<lambda>(j, v). j = k) (evicted_pairs now c ks) =
     (case items c k of
        None \<Rightarrow> []
      | Some item \<Rightarrow> if k \<in> set ks \<and> swept now (Some item) then [(k, Object item)] else [])"
    and notin: "a \<notin> set ks"
    by simp_all
  show ?case
  proof (cases "a = k")
    case True
    then have "filter (\<lambda>(j, v). j = k) (evicted_pairs now c ks) = []"
      using notin IH by (simp split: option.splits)
    then show ?thesis
      using True notin by (simp add: evicted_pairs_Cons split: option.splits)
  next
    case False
    then show ?thesis
      using IH by (auto simp: evicted_pairs_Cons split: option.splits)
  qed
qed

text \<open>
  The lock lets a \<open>Delete\<close> of a key and a sweep run their table accesses in one of two
  orders. With a callback registered and an entry for the key in the table, each order
  hands the key to the callback once: when \<open>Delete\<close> comes first, the sweep no longer
  finds the key; when the sweep comes first, \<open>Delete\<close> calls the callback exactly when the
  sweep has left the entry.
\<close>

lemma Delete_then_DeleteExpired:
  assumes "onEvicted c = Some f" and "items c k = Some item"
    and "distinct ks1" and "set ks1 = dom (items c) - {k}"
  shows "Delete c k = Inr (c\<lparr>items := (items c)(k := None)\<rparr>, [f k (Object item)])
       \<and> DeleteExpired ks1 (c\<lparr>items := (items c)(k := None)\<rparr>) now =
           Inr (after_sweep now (c\<lparr>items := (items c)(k := None)\<rparr>),
                map (\<lambda>(k, v). f k v)
                  (evicted_pairs now (c\<lparr>items := (items c)(k := None)\<rparr>) ks1))
       \<and> filter (\<lambda>(j, v). j = k)
            (evicted_pairs now (c\<lparr>items := (items c)(k := None)\<rparr>) ks1) = []"
proof (intro conjI)
  let ?c1 = "c\<lparr>items := (items c)(k := None)\<rparr>"
  show "Delete c k = Inr (?c1, [f k (Object item)])"
    using assms(1,2) by (simp add: Delete_def delete_eq call_onEvicted_def)
  have "set ks1 = dom (items ?c1)"
    using assms(4) by auto
  then show "DeleteExpired ks1 ?c1 now =
      Inr (after_sweep now ?c1, map (\<lambda>(k, v). f k v) (evicted_pairs now ?c1 ks1))"
    using DeleteExpired_dom [OF assms(3), of ?c1 now] assms(1) by simp
  show "filter (\<lambda>(j, v). j = k) (evicted_pairs now ?c1 ks1) = []"
    by (simp add: evicted_pairs_filter_key [OF assms(3)])
qed

lemma DeleteExpired_then_Delete:
  assumes "onEvicted c = Some f" and "items c k = Some item"
    and "distinct ks" and "set ks = dom (items c)"
  shows "DeleteExpired ks c now =
           Inr (after_sweep now c, map (\<lambda>(k, v). f k v) (evicted_pairs now c ks))
       \<and> (if swept now (Some item)
           then filter (\<lambda>(j, v). j = k) (evicted_pairs now c ks) = [(k, Object item)]
             \<and> Delete (after_sweep now c) k = Inr (after_sweep now c, [])
           else filter (\<lambda>(j, v). j = k) (evicted_pairs now c ks) = []
             \<and> Delete (after_sweep now c) k =
                 Inr ((after_sweep now c)\<lparr>items := (items (after_sweep now c))(k := None)\<rparr>,
                      [f k (Object item)]))"
proof (intro conjI)
  show "DeleteExpired ks c now =
      Inr (after_sweep now c, map (\<lambda>(k, v). f k v) (evicted_pairs now c ks))"
    using DeleteExpired_dom [OF assms(3,4), of now] assms(1) by simp
  have k: "k \<in> set ks"
    using assms(2,4) by auto
  have cb: "onEvicted (after_sweep now c) = Some f"
    using assms(1) by (simp add: after_sweep_def)
  show "if swept now (Some item)
        then filter (\<lambda>(j, v). j = k) (evicted_pairs now c ks) = [(k, Object item)]
          \<and> Delete (after_sweep now c) k = Inr (after_sweep now c, [])
        else filter (\<lambda>(j, v). j = k) (evicted_pairs now c ks) = []
          \<and> Delete (after_sweep now c) k =
              Inr ((after_sweep now c)\<lparr>items := (items (after_sweep now c))(k := None)\<rparr>,
                   [f k (Object item)])"
  proof (cases "swept now (Some item)")
    case True
    have gone: "items (after_sweep now c) k = None"
      using True assms(2) by (simp add: after_sweep_def)
    then have "(items (after_sweep now c))(k := None) = items (after_sweep now c)"
      by (simp add: fun_upd_idem)
    then have "Delete (after_sweep now c) k = Inr (after_sweep now c, [])"
      using gone cb by (simp add: Delete_def delete_eq)
    then show ?thesis
      using True k assms(2) by (simp add: evicted_pairs_filter_key [OF assms(3)])
  next
    case False
    have "items (after_sweep now c) k = Some item"
      using False assms(2) by (simp add: after_sweep_def)
    then have "Delete (after_sweep now c) k =
        Inr ((after_sweep now c)\<lparr>items := (items (after_sweep now c))(k := None)\<rparr>,
             [f k (Object item)])"
      using cb by (simp add: Delete_def delete_eq call_onEvicted_def)
    then show ?thesis
      using False k assms(2) by (simp add: evicted_pairs_filter_key [OF assms(3)])
  qed
qed

subsection \<open>Without a callback\<close>

text \<open>
  Claim C9. With no callback registered, \<open>Delete\<close> and \<open>DeleteExpired\<close> return normally
  (the nil function is not called), remove the entries they target and make no call.
\<close>

theorem no_callback_Delete_and_DeleteExpired:
  assumes "onEvicted c = None" and "distinct ks" and "set ks = dom (items c)"
  shows "Delete c k = Inr (c\<lparr>items := (items c)(k := None)\<rparr>, [])
       \<and> DeleteExpired ks c now = Inr (after_sweep now c, [])"
proof
  show "Delete c k = Inr (c\<lparr>items := (items c)(k := None)\<rparr>, [])"
    using assms(1) by (simp add: Delete_def delete_eq)
  show "DeleteExpired ks c now = Inr (after_sweep now c, [])"
    using assms(1) by (simp add: DeleteExpired_dom [OF assms(2,3)])
qed

theorem no_callback_Delete_and_DeleteExpired_witness:
  "Delete \<lparr>defaultExpiration = - 1,
           items = [''a'' \<mapsto> \<lparr>Object = VInt 1 :: unit payload, Expiration = 15\<rparr>],
           onEvicted = None :: (string \<Rightarrow> unit payload \<Rightarrow> unit) option\<rparr> ''a''
     = Inr (\<lparr>defaultExpiration = - 1, items = Map.empty, onEvicted = None\<rparr>, [])
   \<and> DeleteExpired [''a'']
        \<lparr>defaultExpiration = - 1,
         items = [''a'' \<mapsto> \<lparr>Object = VInt 1 :: unit payload, Expiration = 15\<rparr>],
         onEvicted = None :: (string \<Rightarrow> unit payload \<Rightarrow> unit) option\<rparr> 20
     = Inr (\<lparr>defaultExpiration = - 1, items = Map.empty, onEvicted = None\<rparr>, [])"
  using no_callback_Delete_and_DeleteExpired [where
      c = "\<lparr>defaultExpiration = - 1,
        items = [''a'' \<mapsto> \<lparr>Object = VInt 1 :: unit payload, Expiration = 15\<rparr>],
        onEvicted = None :: (string \<Rightarrow> unit payload \<Rightarrow> unit) option\<rparr>"
      and ks = "[''a'']" and k = "''a''" and now = 20]
  by (simp add: after_sweep_def fun_eq_iff)

subsection \<open>Expiration as seen by Get\<close>

lemma sint_add_int64:
  fixes a b :: int64
  assumes "- (2 ^ 63) \<le> sint a + sint b" and "sint a + sint b < 2 ^ 63"
  shows "sint (a + b) = sint a + sint b"
  using assms by (simp add: sint_word_add signed_take_bit_int_eq_self)

lemma Set_items:
  "items (Set c now k x d) k =
     Some \<lparr>Object = x,
           Expiration =
             (if sint (if d = DefaultExpiration then defaultExpiration c else d) > 0
              then now + (if d = DefaultExpiration then defaultExpiration c else d) else 0)\<rparr>"
  by (simp add: Set_def Let_def)

lemma Set_default_never_expires:
  assumes "sint (defaultExpiration c) \<le> 0"
  shows "Get (Set c now k v DefaultExpiration) t k = Some v"
proof -
  have "\<not> 0 < sint (defaultExpiration c)"
    using assms by simp
  then have "items (Set c now k v DefaultExpiration) k = Some \<lparr>Object = v, Expiration = 0\<rparr>"
    by (simp add: Set_items)
  then show ?thesis
    by (simp add: Get_def Expired_def)
qed

lemma Delete_defaultExpiration:
  "Delete c k = Inr (c1, es) \<Longrightarrow> defaultExpiration c1 = defaultExpiration c"
  by (auto simp: Delete_def delete_eq call_onEvicted_def split: option.splits)

lemma DeleteExpired_defaultExpiration:
  assumes "DeleteExpired ks c now = Inr (c1, es)"
  shows "defaultExpiration c1 = defaultExpiration c"
proof -
  have "c1 = fst (DeleteExpired_loop now ks c [])"
    using assms by (auto simp: DeleteExpired_def split: prod.splits sum.splits)
  then show ?thesis
    by (simp add: DeleteExpired_loop_fst)
qed

lemma engine_of_defaultExpiration:
  "engine_of de ci c \<Longrightarrow>
     defaultExpiration c = (if de = DefaultExpiration then NoExpiration else de)"
proof (induction rule: engine_of.induct)
  case by_New
  show ?case
    by (simp add: New_def newCacheWithJanitor_def newCache_def)
next
  case (by_Set c now k x d)
  then show ?case
    by (simp add: Set_def Let_def)
next
  case (by_SetDefault c now k x)
  then show ?case
    by (simp add: SetDefault_def Set_def Let_def)
next
  case (by_Add c now1 now2 k x d)
  then show ?case
    by (simp add: Add_def set_unlocked_def Let_def split: option.splits)
next
  case (by_Replace c now1 now2 k x d)
  then show ?case
    by (simp add: Replace_def set_unlocked_def Let_def split: option.splits)
next
  case (by_Increment c W now k n)
  then show ?case
    by (simp add: Increment_def split: option.splits)
next
  case (by_Decrement c W now k n)
  then show ?case
    by (simp add: Decrement_def split: option.splits)
next
  case (by_IncrementFloat c now k f)
  then show ?case
    by (simp add: IncrementFloat_def split: option.splits)
next
  case (by_DecrementFloat c now k f)
  then show ?case
    by (simp add: DecrementFloat_def split: option.splits)
next
  case (by_Delete c k c1 es)
  then show ?case
    using Delete_defaultExpiration [of c k c1 es] by simp
next
  case (by_DeleteExpired c ks now c1 es)
  then show ?case
    using DeleteExpired_defaultExpiration [of ks c now c1 es] by simp
next
  case (by_OnEvicted c g)
  then show ?case
    by (simp add: OnEvicted_def)
qed

lemma engine_of_nonpositive:
  assumes "engine_of de ci c" and "sint de \<le> 0"
  shows "sint (defaultExpiration c) \<le> 0"
  using assms(2) by (simp add: engine_of_defaultExpiration [OF assms(1)] NoExpiration_def)

text \<open>
  Claim C2, as the code has it. When the duration is positive and the clock reading plus
  the duration stays in \<open>int64\<close> and is not zero, \<open>Get\<close> after \<open>Set\<close> finds the value at
  every reading up to that instant and finds nothing at every later reading. On every
  engine whose default expiration is zero or less, and so on every engine constructed with
  a default expiration of zero or less, whatever has been done with it since, an entry
  written with \<open>DefaultExpiration\<close> is found at every reading.
\<close>

theorem Set_then_Get:
  fixes c c2 c3 :: "('a, 'e) cache"
  assumes "0 < sint d" and "sint now + sint d < 2 ^ 63" and "sint now + sint d \<noteq> 0"
  shows "Get (Set c now k v d) t k = (if sint t \<le> sint now + sint d then Some v else None)
       \<and> (sint (defaultExpiration c2) \<le> 0 \<longrightarrow>
            Get (Set c2 now2 k v DefaultExpiration) t2 k = Some v)
       \<and> (sint de \<le> 0 \<and> engine_of de ci c3 \<longrightarrow>
            Get (Set c3 now2 k v DefaultExpiration) t2 k = Some v)"
proof (intro conjI)
  have d0: "d \<noteq> DefaultExpiration"
    using assms(1) by (auto simp: DefaultExpiration_def)
  have "- (2 ^ 63) \<le> sint now"
    using sint_ge [of now] by simp
  then have lo: "- (2 ^ 63) \<le> sint now + sint d"
    using assms(1) by linarith
  have e: "sint (now + d) = sint now + sint d"
    by (rule sint_add_int64 [OF lo assms(2)])
  then have nz: "now + d \<noteq> 0"
    using assms(3) by auto
  show "Get (Set c now k v d) t k = (if sint t \<le> sint now + sint d then Some v else None)"
    using d0 assms(1) nz e by (auto simp: Get_def Set_items Expired_def)
  show "sint (defaultExpiration c2) \<le> 0 \<longrightarrow>
          Get (Set c2 now2 k v DefaultExpiration) t2 k = Some v"
    by (simp add: Set_default_never_expires)
  show "sint de \<le> 0 \<and> engine_of de ci c3 \<longrightarrow>
          Get (Set c3 now2 k v DefaultExpiration) t2 k = Some v"
    using engine_of_nonpositive [of de ci c3] by (simp add: Set_default_never_expires)
qed

theorem Set_then_Get_witness:
  "Get (Set (New 0 0 :: (unit, unit) cache) 1000 ''k'' (VInt 5) 50) 1050 ''k'' = Some (VInt 5)
   \<and> Get (Set (New 0 0 :: (unit, unit) cache) 1000 ''k'' (VInt 5) 50) 1051 ''k'' = None
   \<and> Get (Set (Set (New 0 0 :: (unit, unit) cache) 1000 ''k'' (VInt 5) 50) 2000 ''k'' (VInt 5)
            DefaultExpiration) 3000 ''k'' = Some (VInt 5)"
proof -
  let ?c = "New 0 0 :: (unit, unit) cache"
  let ?c1 = "Set ?c 1000 ''k'' (VInt 5) 50"
  have h1: "0 < sint (50 :: int64)" and h2: "sint (1000 :: int64) + sint (50 :: int64) < 2 ^ 63"
    and h3: "sint (1000 :: int64) + sint (50 :: int64) \<noteq> 0"
    by simp_all
  have e: "engine_of 0 0 ?c1"
    by (intro engine_of.by_Set engine_of.by_New)
  have d: "sint (defaultExpiration ?c1) \<le> 0"
    by (simp add: Set_def New_def newCacheWithJanitor_def newCache_def DefaultExpiration_def
        NoExpiration_def)
  have z: "sint (0 :: int64) \<le> 0"
    by simp
  show ?thesis
    using Set_then_Get [OF h1 h2 h3, where c = ?c and k = "''k''" and v = "VInt 5" and t = 1050
        and ?c2.0 = ?c1 and ?c3.0 = ?c1 and de = 0 and ci = 0 and ?now2.0 = 2000 and ?t2.0 = 3000]
      Set_then_Get [OF h1 h2 h3, where c = ?c and k = "''k''" and v = "VInt 5" and t = 1051
        and ?c2.0 = ?c1 and ?c3.0 = ?c1 and de = 0 and ci = 0 and ?now2.0 = 2000 and ?t2.0 = 3000]
      e d z
    by simp
qed

text \<open>
  Without the bound the claim fails: at a clock reading of November 2026 and the largest
  duration, the sum wraps to a negative expiration, and \<open>Get\<close> at the very reading of the
  \<open>Set\<close> finds nothing.
\<close>

theorem Set_then_Get_overflow_counterexample:
  "0 < sint (9223372036854775807 :: int64)
   \<and> Get (Set (New 0 0 :: (unit, unit) cache) 1793559600000000000 ''k'' (VInt 5)
          9223372036854775807) 1793559600000000000 ''k'' = None"
  by (simp add: Get_def Set_def New_def newCacheWithJanitor_def newCache_def
      DefaultExpiration_def NoExpiration_def Expired_def)

subsection \<open>Fixed-width arithmetic\<close>

lemma wrap_signed_eq: "0 < w \<Longrightarrow> wrap_signed w i = signed_take_bit (w - 1) i"
  by (cases w) (simp_all add: wrap_signed_def signed_take_bit_eq_take_bit_shift take_bit_eq_mod)

lemma wrap_unsigned_eq: "wrap_unsigned w i = take_bit w i"
  by (simp add: wrap_unsigned_def take_bit_eq_mod)

lemma wrap_signed_cong:
  "i mod 2 ^ w = j mod 2 ^ w \<Longrightarrow> wrap_signed w i = wrap_signed w j"
  unfolding wrap_signed_def by (metis mod_add_left_eq)

lemma wrap_signed_mod: "wrap_signed w (i mod 2 ^ w) = wrap_signed w i"
  by (rule wrap_signed_cong) simp

lemma wrap_signed_id:
  assumes "0 < w" and "- (2 ^ (w - 1)) \<le> i" and "i < 2 ^ (w - 1)"
  shows "wrap_signed w i = i"
  using assms by (simp add: wrap_signed_eq signed_take_bit_int_eq_self)

lemma wrap_unsigned_id: "0 \<le> i \<Longrightarrow> i < 2 ^ w \<Longrightarrow> wrap_unsigned w i = i"
  by (simp add: wrap_unsigned_def)

lemma uint_sint_mod:
  fixes n :: int64
  assumes "LENGTH('b::len) \<le> 64"
  shows "uint (ucast n :: 'b word) = sint n mod 2 ^ LENGTH('b)"
proof -
  have "uint (ucast n :: 'b word) = take_bit LENGTH('b) (uint n)"
    by (simp add: unsigned_ucast_eq)
  also have "\<dots> = take_bit LENGTH('b) (take_bit 64 (sint n))"
    by (simp add: uint_sint)
  also have "\<dots> = take_bit LENGTH('b) (sint n)"
    using assms by (simp add: min_def)
  finally show ?thesis
    by (simp add: take_bit_eq_mod)
qed

lemma uint_add_ucast:
  fixes x :: "'b::len word" and n :: int64
  assumes "LENGTH('b) \<le> 64"
  shows "uint (x + ucast n) = (uint x + sint n) mod 2 ^ LENGTH('b)"
  by (simp add: uint_word_ariths uint_sint_mod [OF assms] mod_add_right_eq)

lemma uint_sub_ucast:
  fixes x :: "'b::len word" and n :: int64
  assumes "LENGTH('b) \<le> 64"
  shows "uint (x - ucast n) = (uint x - sint n) mod 2 ^ LENGTH('b)"
  by (simp add: uint_word_ariths uint_sint_mod [OF assms] mod_diff_right_eq)

lemma sint_via_uint:
  fixes y :: "'b::len word"
  shows "sint y = wrap_signed LENGTH('b) (uint y)"
  by (simp add: wrap_signed_eq sint_uint)

lemma uint_mod_sint:
  fixes x :: "'b::len word"
  shows "uint x = sint x mod 2 ^ LENGTH('b)"
  by (simp add: uint_sint take_bit_eq_mod)

lemma sint_add_ucast:
  fixes x :: "'b::len word" and n :: int64
  assumes "LENGTH('b) \<le> 64"
  shows "sint (x + ucast n) = wrap_signed LENGTH('b) (sint x + sint n)"
proof -
  have "sint (x + ucast n) = wrap_signed LENGTH('b) ((uint x + sint n) mod 2 ^ LENGTH('b))"
    by (simp add: sint_via_uint [of "x + ucast n"] uint_add_ucast [OF assms])
  also have "\<dots> = wrap_signed LENGTH('b) (uint x + sint n)"
    by (rule wrap_signed_mod)
  also have "\<dots> = wrap_signed LENGTH('b) (sint x + sint n)"
    by (rule wrap_signed_cong) (simp add: uint_mod_sint [of x] mod_add_left_eq)
  finally show ?thesis .
qed

lemma sint_sub_ucast:
  fixes x :: "'b::len word" and n :: int64
  assumes "LENGTH('b) \<le> 64"
  shows "sint (x - ucast n) = wrap_signed LENGTH('b) (sint x - sint n)"
proof -
  have "sint (x - ucast n) = wrap_signed LENGTH('b) ((uint x - sint n) mod 2 ^ LENGTH('b))"
    by (simp add: sint_via_uint [of "x - ucast n"] uint_sub_ucast [OF assms])
  also have "\<dots> = wrap_signed LENGTH('b) (uint x - sint n)"
    by (rule wrap_signed_mod)
  also have "\<dots> = wrap_signed LENGTH('b) (sint x - sint n)"
    by (rule wrap_signed_cong) (simp add: uint_mod_sint [of x] mod_diff_left_eq)
  finally show ?thesis .
qed

lemma wrap_signed_mod_eq: "wrap_signed w i mod 2 ^ w = i mod 2 ^ w"
  by (simp add: wrap_signed_def mod_diff_left_eq)

lemma wrap_unsigned_mod_eq: "wrap_unsigned w i mod 2 ^ w = i mod 2 ^ w"
  by (simp add: wrap_unsigned_def)

lemma wrap_signed_add_wrap: "wrap_signed w (x + wrap_signed w i) = wrap_signed w (x + i)"
proof (rule wrap_signed_cong)
  have "(x + wrap_signed w i) mod 2 ^ w = (x + wrap_signed w i mod 2 ^ w) mod 2 ^ w"
    by (simp add: mod_add_right_eq)
  also have "\<dots> = (x + i) mod 2 ^ w"
    by (simp add: wrap_signed_mod_eq mod_add_right_eq)
  finally show "(x + wrap_signed w i) mod 2 ^ w = (x + i) mod 2 ^ w" .
qed

lemma wrap_signed_sub_wrap: "wrap_signed w (x - wrap_signed w i) = wrap_signed w (x - i)"
proof (rule wrap_signed_cong)
  have "(x - wrap_signed w i) mod 2 ^ w = (x - wrap_signed w i mod 2 ^ w) mod 2 ^ w"
    by (simp add: mod_diff_right_eq)
  also have "\<dots> = (x - i) mod 2 ^ w"
    by (simp add: wrap_signed_mod_eq mod_diff_right_eq)
  finally show "(x - wrap_signed w i) mod 2 ^ w = (x - i) mod 2 ^ w" .
qed

lemma wrap_unsigned_add_wrap: "wrap_unsigned w (x + wrap_unsigned w i) = wrap_unsigned w (x + i)"
  by (simp add: wrap_unsigned_def mod_add_right_eq)

lemma wrap_unsigned_sub_wrap: "wrap_unsigned w (x - wrap_unsigned w i) = wrap_unsigned w (x - i)"
  by (simp add: wrap_unsigned_def mod_diff_right_eq)

lemma wrap_kind_alt:
  "wrap_kind W kd i =
     (if kind_signed kd then wrap_signed (kind_bits W kd) i else wrap_unsigned (kind_bits W kd) i)"
  by (simp add: wrap_kind_def wrap_signed_def wrap_unsigned_def)

lemma wrap_kind_in_range:
  assumes "0 < kind_bits W kd" and "kind_min W kd \<le> i" and "i \<le> kind_max W kd"
  shows "wrap_kind W kd i = i"
  using assms
  by (auto simp: wrap_kind_alt kind_min_def kind_max_def wrap_signed_id wrap_unsigned_id
      split: if_splits)

lemma wrap_kind_add_wrap: "wrap_kind W kd (x + wrap_kind W kd i) = wrap_kind W kd (x + i)"
  by (simp add: wrap_kind_alt wrap_signed_add_wrap wrap_unsigned_add_wrap)

lemma wrap_kind_sub_wrap: "wrap_kind W kd (x - wrap_kind W kd i) = wrap_kind W kd (x - i)"
  by (simp add: wrap_kind_alt wrap_signed_sub_wrap wrap_unsigned_sub_wrap)

lemma Increment_switch_int:
  assumes "int_value p = Some x"
  shows "\<exists>vo. Increment_switch W p n = Some vo \<and> kind_of vo = kind_of p
           \<and> int_value vo = Some (wrap_kind W (kind_of p) (x + sint n))"
proof (cases p)
  case (VInt y)
  then show ?thesis
    using assms by (simp add: wrap_kind_alt int_of_int64_def wrap_signed_add_wrap)
next
  case (VUint y)
  then show ?thesis
    using assms by (simp add: wrap_kind_alt uint_of_int64_def wrap_unsigned_add_wrap)
next
  case (VUintptr y)
  then show ?thesis
    using assms by (simp add: wrap_kind_alt uint_of_int64_def wrap_unsigned_add_wrap)
next
  case (VInt64 y)
  then show ?thesis
    using assms sint_add_ucast [of y n] by (simp add: wrap_kind_alt)
next
  case (VUint64 y)
  then show ?thesis
    using assms uint_add_ucast [of y n] by (simp add: wrap_kind_alt wrap_unsigned_def)
qed (use assms in \<open>auto simp: wrap_kind_alt sint_add_ucast uint_add_ucast wrap_unsigned_def\<close>)

lemma Decrement_switch_int:
  assumes "int_value p = Some x"
  shows "\<exists>vo. Decrement_switch W p n = Some vo \<and> kind_of vo = kind_of p
           \<and> int_value vo = Some (wrap_kind W (kind_of p) (x - sint n))"
proof (cases p)
  case (VInt y)
  then show ?thesis
    using assms by (simp add: wrap_kind_alt int_of_int64_def wrap_signed_sub_wrap)
next
  case (VUint y)
  then show ?thesis
    using assms by (simp add: wrap_kind_alt uint_of_int64_def wrap_unsigned_sub_wrap)
next
  case (VUintptr y)
  then show ?thesis
    using assms by (simp add: wrap_kind_alt uint_of_int64_def wrap_unsigned_sub_wrap)
next
  case (VInt64 y)
  then show ?thesis
    using assms sint_sub_ucast [of y n] by (simp add: wrap_kind_alt)
next
  case (VUint64 y)
  then show ?thesis
    using assms uint_sub_ucast [of y n] by (simp add: wrap_kind_alt wrap_unsigned_def)
qed (use assms in \<open>auto simp: wrap_kind_alt sint_sub_ucast uint_sub_ucast wrap_unsigned_def\<close>)

subsection \<open>Increment and Decrement\<close>

lemma Expired_Object_update [simp]: "Expired (item\<lparr>Object := vo\<rparr>) now = Expired item now"
  by (simp add: Expired_def)

lemma Increment_frame:
  assumes "items c k = Some item" and "\<not> Expired item now"
  shows "Increment W c now k n =
     (case Increment_switch W (Object item) n of
        None \<Rightarrow> (c, Some WrongType)
      | Some vo \<Rightarrow> (c\<lparr>items := (items c)(k \<mapsto> item\<lparr>Object := vo\<rparr>)\<rparr>, None))"
  using assms by (simp add: Increment_def)

lemma Decrement_frame:
  assumes "items c k = Some item" and "\<not> Expired item now"
  shows "Decrement W c now k n =
     (case Decrement_switch W (Object item) n of
        None \<Rightarrow> (c, Some WrongType)
      | Some vo \<Rightarrow> (c\<lparr>items := (items c)(k \<mapsto> item\<lparr>Object := vo\<rparr>)\<rparr>, None))"
  using assms by (simp add: Decrement_def)

lemma Get_after_store:
  "Get (c\<lparr>items := (items c)(k \<mapsto> item\<lparr>Object := vo\<rparr>)\<rparr>) now k =
     (if Expired item now then None else Some vo)"
  by (simp add: Get_def)

lemma int_kind_bits: "int_value p = Some x \<Longrightarrow> 0 < W \<Longrightarrow> 0 < kind_bits W (kind_of p)"
  by (cases p) simp_all

lemma Increment_switch_None: "(Increment_switch W p n = None) = (kind_of p = KOther)"
  by (cases p) simp_all

lemma Decrement_switch_None: "(Decrement_switch W p n = None) = (kind_of p = KOther)"
  by (cases p) simp_all

text \<open>
  Claim C1, as the code has it. On a live entry, \<open>Increment\<close> and \<open>Decrement\<close> fail with
  \<open>WrongType\<close> exactly when the payload is none of the thirteen types of the switch, which
  names \<open>float32\<close> and \<open>float64\<close> after the eleven integer types; the engine is then
  unchanged. On every payload of the thirteen types, floats included, they return no error.
\<close>

theorem Increment_Decrement_WrongType:
  assumes "items c k = Some item" and "\<not> Expired item now"
  shows "snd (Increment W c now k n) =
           (if kind_of (Object item) = KOther then Some WrongType else None)
       \<and> snd (Decrement W c now k n) =
           (if kind_of (Object item) = KOther then Some WrongType else None)
       \<and> (kind_of (Object item) = KOther \<longrightarrow>
            Increment W c now k n = (c, Some WrongType)
            \<and> Decrement W c now k n = (c, Some WrongType))"
  using Increment_switch_None [of W "Object item" n] Decrement_switch_None [of W "Object item" n]
  by (auto simp: Increment_frame [OF assms] Decrement_frame [OF assms] split: option.splits)

theorem Increment_Decrement_WrongType_witness:
  "Increment 64
      \<lparr>defaultExpiration = - 1,
       items = [''s'' \<mapsto> \<lparr>Object = VOther ''text'', Expiration = 0\<rparr>],
       onEvicted = None :: (string \<Rightarrow> string payload \<Rightarrow> unit) option\<rparr> 1000 ''s'' 2
     = (\<lparr>defaultExpiration = - 1,
         items = [''s'' \<mapsto> \<lparr>Object = VOther ''text'', Expiration = 0\<rparr>],
         onEvicted = None\<rparr>, Some WrongType)
   \<and> Decrement 64
      \<lparr>defaultExpiration = - 1,
       items = [''s'' \<mapsto> \<lparr>Object = VOther ''text'', Expiration = 0\<rparr>],
       onEvicted = None :: (string \<Rightarrow> string payload \<Rightarrow> unit) option\<rparr> 1000 ''s'' 2
     = (\<lparr>defaultExpiration = - 1,
         items = [''s'' \<mapsto> \<lparr>Object = VOther ''text'', Expiration = 0\<rparr>],
         onEvicted = None\<rparr>, Some WrongType)"
proof -
  let ?item = "\<lparr>Object = VOther ''text'', Expiration = 0\<rparr>"
  let ?c = "\<lparr>defaultExpiration = - 1, items = [''s'' \<mapsto> ?item],
            onEvicted = None :: (string \<Rightarrow> string payload \<Rightarrow> unit) option\<rparr>"
  have h1: "items ?c ''s'' = Some ?item"
    by simp
  have h2: "\<not> Expired ?item 1000"
    by (simp add: Expired_def)
  show ?thesis
    using Increment_Decrement_WrongType [OF h1 h2, of 64 2] by simp
qed

text \<open>
  The claim as written fails on a float payload: \<open>Increment\<close> by 2 of the \<open>float32\<close> 1.5
  returns no error and stores 3.5, and \<open>Decrement\<close> by 2 of the \<open>float64\<close> 1.5 returns no
  error and stores -0.5.
\<close>

lemma float32_example: "fadd round32 (Fin (3 / 2)) (float32_of_int64 2) = Fin (7 / 2)"
  by code_simp

lemma floor_log2_examples: "floor_log2 2 = 1" "floor_log2 (1 / 2) = - 1"
  by code_simp+

lemma round_half_even_int: "round_half_even (of_int i) = i"
  by (simp add: round_half_even_def Let_def)

lemma pow2_examples: "pow2 (- 51) = 1 / 2 ^ 51" "pow2 (- 53) = 1 / 2 ^ 53" "pow2 1024 = 2 ^ 1024"
  by (simp_all add: pow2_def)

lemma round64_2: "round64 2 = Fin 2"
  unfolding round64_def fround_def
  using round_half_even_int [of "2 ^ 52"]
  by (simp add: floor_log2_examples Let_def pow2_examples)

lemma round64_minus_half: "round64 (- 1 / 2) = Fin (- 1 / 2)"
  unfolding round64_def fround_def
  using round_half_even_int [of "2 ^ 52"]
  by (simp add: floor_log2_examples Let_def pow2_examples)

lemma float64_example: "fsub round64 (Fin (3 / 2)) (float64_of_int64 2) = Fin (- 1 / 2)"
  using round64_minus_half by (simp add: fsub_def float64_of_int64_def round64_2)

theorem Increment_float_counterexample:
  "Increment 64
      \<lparr>defaultExpiration = - 1,
       items = [''f'' \<mapsto> \<lparr>Object = VFloat32 (Fin (3 / 2)) :: unit payload, Expiration = 0\<rparr>],
       onEvicted = None :: (string \<Rightarrow> unit payload \<Rightarrow> unit) option\<rparr> 1000 ''f'' 2
     = (\<lparr>defaultExpiration = - 1,
         items = [''f'' \<mapsto> \<lparr>Object = VFloat32 (Fin (7 / 2)), Expiration = 0\<rparr>],
         onEvicted = None\<rparr>, None)
   \<and> Decrement 64
      \<lparr>defaultExpiration = - 1,
       items = [''f'' \<mapsto> \<lparr>Object = VFloat64 (Fin (3 / 2)) :: unit payload, Expiration = 0\<rparr>],
       onEvicted = None :: (string \<Rightarrow> unit payload \<Rightarrow> unit) option\<rparr> 1000 ''f'' 2
     = (\<lparr>defaultExpiration = - 1,
         items = [''f'' \<mapsto> \<lparr>Object = VFloat64 (Fin (- 1 / 2)), Expiration = 0\<rparr>],
         onEvicted = None\<rparr>, None)"
  by (simp add: Increment_def Decrement_def Expired_def float32_example float64_example)

text \<open>
  Claim C3, as the code has it. On a live entry holding an integer \<open>x\<close>, \<open>Increment\<close>
  returns no error and replaces the payload only: the item keeps its expiration, and \<open>Get\<close>
  at any later clock reading at which the item has not expired returns the new payload. It
  is of the same kind and holds \<open>x + n\<close> whenever \<open>x + n\<close> is in the range of the kind
  (and \<open>x + n\<close> reduced into that range otherwise). \<open>Decrement\<close> does the same with
  \<open>x - n\<close>.
\<close>

theorem Increment_Decrement_integer:
  assumes "items c k = Some item" and "\<not> Expired item now"
    and "int_value (Object item) = Some x" and "0 < W"
  shows "(\<exists>vo. Increment W c now k n = (c\<lparr>items := (items c)(k \<mapsto> item\<lparr>Object := vo\<rparr>)\<rparr>, None)
            \<and> Get (fst (Increment W c now k n)) t k = (if Expired item t then None else Some vo)
            \<and> map_option Expiration (items (fst (Increment W c now k n)) k) = Some (Expiration item)
            \<and> kind_of vo = kind_of (Object item)
            \<and> int_value vo = Some (wrap_kind W (kind_of (Object item)) (x + sint n))
            \<and> (kind_min W (kind_of (Object item)) \<le> x + sint n
                 \<and> x + sint n \<le> kind_max W (kind_of (Object item))
                \<longrightarrow> int_value vo = Some (x + sint n)))
       \<and> (\<exists>vo. Decrement W c now k n = (c\<lparr>items := (items c)(k \<mapsto> item\<lparr>Object := vo\<rparr>)\<rparr>, None)
            \<and> Get (fst (Decrement W c now k n)) t k = (if Expired item t then None else Some vo)
            \<and> map_option Expiration (items (fst (Decrement W c now k n)) k) = Some (Expiration item)
            \<and> kind_of vo = kind_of (Object item)
            \<and> int_value vo = Some (wrap_kind W (kind_of (Object item)) (x - sint n))
            \<and> (kind_min W (kind_of (Object item)) \<le> x - sint n
                 \<and> x - sint n \<le> kind_max W (kind_of (Object item))
                \<longrightarrow> int_value vo = Some (x - sint n)))"
proof
  have bits: "0 < kind_bits W (kind_of (Object item))"
    by (rule int_kind_bits [OF assms(3,4)])
  obtain vo where vo: "Increment_switch W (Object item) n = Some vo"
      "kind_of vo = kind_of (Object item)"
      "int_value vo = Some (wrap_kind W (kind_of (Object item)) (x + sint n))"
    using Increment_switch_int [OF assms(3), of W n] by blast
  have inc: "Increment W c now k n = (c\<lparr>items := (items c)(k \<mapsto> item\<lparr>Object := vo\<rparr>)\<rparr>, None)"
    using Increment_frame [OF assms(1,2), of W n] vo(1) by simp
  have "Get (fst (Increment W c now k n)) t k = (if Expired item t then None else Some vo)"
    by (simp add: inc Get_after_store)
  moreover have "map_option Expiration (items (fst (Increment W c now k n)) k) = Some (Expiration item)"
    by (simp add: inc)
  moreover have "kind_min W (kind_of (Object item)) \<le> x + sint n
        \<and> x + sint n \<le> kind_max W (kind_of (Object item))
       \<longrightarrow> int_value vo = Some (x + sint n)"
    using vo(3) wrap_kind_in_range [OF bits, of "x + sint n"] by simp
  ultimately show "\<exists>vo. Increment W c now k n = (c\<lparr>items := (items c)(k \<mapsto> item\<lparr>Object := vo\<rparr>)\<rparr>, None)
            \<and> Get (fst (Increment W c now k n)) t k = (if Expired item t then None else Some vo)
            \<and> map_option Expiration (items (fst (Increment W c now k n)) k) = Some (Expiration item)
            \<and> kind_of vo = kind_of (Object item)
            \<and> int_value vo = Some (wrap_kind W (kind_of (Object item)) (x + sint n))
            \<and> (kind_min W (kind_of (Object item)) \<le> x + sint n
                 \<and> x + sint n \<le> kind_max W (kind_of (Object item))
                \<longrightarrow> int_value vo = Some (x + sint n))"
    using inc vo(2,3) by blast
  obtain wo where wo: "Decrement_switch W (Object item) n = Some wo"
      "kind_of wo = kind_of (Object item)"
      "int_value wo = Some (wrap_kind W (kind_of (Object item)) (x - sint n))"
    using Decrement_switch_int [OF assms(3), of W n] by blast
  have dec: "Decrement W c now k n = (c\<lparr>items := (items c)(k \<mapsto> item\<lparr>Object := wo\<rparr>)\<rparr>, None)"
    using Decrement_frame [OF assms(1,2), of W n] wo(1) by simp
  have "Get (fst (Decrement W c now k n)) t k = (if Expired item t then None else Some wo)"
    by (simp add: dec Get_after_store)
  moreover have "map_option Expiration (items (fst (Decrement W c now k n)) k) = Some (Expiration item)"
    by (simp add: dec)
  moreover have "kind_min W (kind_of (Object item)) \<le> x - sint n
        \<and> x - sint n \<le> kind_max W (kind_of (Object item))
       \<longrightarrow> int_value wo = Some (x - sint n)"
    using wo(3) wrap_kind_in_range [OF bits, of "x - sint n"] by simp
  ultimately show "\<exists>vo. Decrement W c now k n = (c\<lparr>items := (items c)(k \<mapsto> item\<lparr>Object := vo\<rparr>)\<rparr>, None)
            \<and> Get (fst (Decrement W c now k n)) t k = (if Expired item t then None else Some vo)
            \<and> map_option Expiration (items (fst (Decrement W c now k n)) k) = Some (Expiration item)
            \<and> kind_of vo = kind_of (Object item)
            \<and> int_value vo = Some (wrap_kind W (kind_of (Object item)) (x - sint n))
            \<and> (kind_min W (kind_of (Object item)) \<le> x - sint n
                 \<and> x - sint n \<le> kind_max W (kind_of (Object item))
                \<longrightarrow> int_value vo = Some (x - sint n))"
    using dec wo(2,3) by blast
qed

theorem Increment_Decrement_integer_witness:
  "Get (fst (Increment 64 (Set (New 0 0 :: (unit, unit) cache) 1000 ''tint'' (VInt 1) DefaultExpiration)
        1001 ''tint'' 2)) 5000 ''tint'' = Some (VInt 3)
   \<and> Get (fst (Decrement 64 (Set (New 0 0 :: (unit, unit) cache) 1000 ''tint'' (VInt 1) DefaultExpiration)
        1001 ''tint'' 2)) 5000 ''tint'' = Some (VInt (- 1))"
proof -
  let ?c = "Set (New 0 0 :: (unit, unit) cache) 1000 ''tint'' (VInt 1) DefaultExpiration"
  let ?item = "\<lparr>Object = VInt 1 :: unit payload, Expiration = 0\<rparr>"
  have h1: "items ?c ''tint'' = Some ?item"
    by (simp add: Set_def New_def newCacheWithJanitor_def newCache_def DefaultExpiration_def
        NoExpiration_def)
  have h2: "\<not> Expired ?item 1001"
    by (simp add: Expired_def)
  have h3: "int_value (Object ?item) = Some 1"
    by simp
  have h4: "0 < (64 :: nat)"
    by simp
  have h5: "\<not> Expired ?item 5000"
    by (simp add: Expired_def)
  show ?thesis
    using Increment_Decrement_integer [OF h1 h2 h3 h4, of 2 5000] h5
    by (auto simp: kind_min_def kind_max_def elim!: kind_of.elims)
qed

text \<open>
  Without the bound on the range the claim fails: \<open>Increment\<close> by 1 of the \<open>int8\<close> 127
  returns no error and \<open>Get\<close> then returns -128, not 128; \<open>Decrement\<close> by 1 of the
  \<open>uint8\<close> 0 returns no error and \<open>Get\<close> then returns 255, not -1.
\<close>

theorem Increment_overflow_counterexample:
  "map_option int_value
     (Get \<lparr>defaultExpiration = - 1,
           items = [''i'' \<mapsto> \<lparr>Object = VInt8 127 :: unit payload, Expiration = 0\<rparr>],
           onEvicted = None :: (string \<Rightarrow> unit payload \<Rightarrow> unit) option\<rparr> 1000 ''i'')
     = Some (Some 127)
   \<and> snd (Increment 64
      \<lparr>defaultExpiration = - 1,
       items = [''i'' \<mapsto> \<lparr>Object = VInt8 127 :: unit payload, Expiration = 0\<rparr>],
       onEvicted = None :: (string \<Rightarrow> unit payload \<Rightarrow> unit) option\<rparr> 1000 ''i'' 1) = None
   \<and> map_option int_value
     (Get (fst (Increment 64
      \<lparr>defaultExpiration = - 1,
       items = [''i'' \<mapsto> \<lparr>Object = VInt8 127 :: unit payload, Expiration = 0\<rparr>],
       onEvicted = None :: (string \<Rightarrow> unit payload \<Rightarrow> unit) option\<rparr> 1000 ''i'' 1)) 1000 ''i'')
     = Some (Some (- 128))
   \<and> map_option int_value
     (Get \<lparr>defaultExpiration = - 1,
           items = [''u'' \<mapsto> \<lparr>Object = VUint8 0 :: unit payload, Expiration = 0\<rparr>],
           onEvicted = None :: (string \<Rightarrow> unit payload \<Rightarrow> unit) option\<rparr> 1000 ''u'')
     = Some (Some 0)
   \<and> snd (Decrement 64
      \<lparr>defaultExpiration = - 1,
       items = [''u'' \<mapsto> \<lparr>Object = VUint8 0 :: unit payload, Expiration = 0\<rparr>],
       onEvicted = None :: (string \<Rightarrow> unit payload \<Rightarrow> unit) option\<rparr> 1000 ''u'' 1) = None
   \<and> map_option int_value
     (Get (fst (Decrement 64
      \<lparr>defaultExpiration = - 1,
       items = [''u'' \<mapsto> \<lparr>Object = VUint8 0 :: unit payload, Expiration = 0\<rparr>],
       onEvicted = None :: (string \<Rightarrow> unit payload \<Rightarrow> unit) option\<rparr> 1000 ''u'' 1)) 1000 ''u'')
     = Some (Some 255)"
  by (simp add: Increment_def Decrement_def Get_def Expired_def unsigned_minus_1_eq_mask
      mask_eq_exp_minus_1)

text \<open>
  Claim C10. On a live entry holding an integer of a kind of width \<open>w\<close>, the new payload
  is of the same kind and holds the old value plus (minus) the delta converted to that
  kind, reduced modulo \<open>2 ^ w\<close> into the range of the kind. \<open>Decrement\<close> of an unsigned
  payload by more than it holds returns no error and stores the difference plus \<open>2 ^ w\<close>.
\<close>

theorem Increment_Decrement_wraparound:
  assumes "items c k = Some item" and "\<not> Expired item now"
    and "int_value (Object item) = Some x"
  shows "(\<exists>vo. Increment W c now k n = (c\<lparr>items := (items c)(k \<mapsto> item\<lparr>Object := vo\<rparr>)\<rparr>, None)
            \<and> kind_of vo = kind_of (Object item)
            \<and> int_value vo =
                Some (wrap_kind W (kind_of (Object item))
                        (x + wrap_kind W (kind_of (Object item)) (sint n))))
       \<and> (\<exists>vo. Decrement W c now k n = (c\<lparr>items := (items c)(k \<mapsto> item\<lparr>Object := vo\<rparr>)\<rparr>, None)
            \<and> kind_of vo = kind_of (Object item)
            \<and> int_value vo =
                Some (wrap_kind W (kind_of (Object item))
                        (x - wrap_kind W (kind_of (Object item)) (sint n)))
            \<and> (\<not> kind_signed (kind_of (Object item)) \<and> 0 \<le> x
                 \<and> x < wrap_kind W (kind_of (Object item)) (sint n)
                \<longrightarrow> int_value vo =
                      Some (x - wrap_kind W (kind_of (Object item)) (sint n)
                              + 2 ^ kind_bits W (kind_of (Object item)))))"
proof
  let ?kd = "kind_of (Object item)"
  obtain vo where vo: "Increment_switch W (Object item) n = Some vo" "kind_of vo = ?kd"
      "int_value vo = Some (wrap_kind W ?kd (x + sint n))"
    using Increment_switch_int [OF assms(3), of W n] by blast
  have "Increment W c now k n = (c\<lparr>items := (items c)(k \<mapsto> item\<lparr>Object := vo\<rparr>)\<rparr>, None)"
    using Increment_frame [OF assms(1,2), of W n] vo(1) by simp
  moreover have "int_value vo = Some (wrap_kind W ?kd (x + wrap_kind W ?kd (sint n)))"
    by (simp add: vo(3) wrap_kind_add_wrap)
  ultimately show "\<exists>vo. Increment W c now k n = (c\<lparr>items := (items c)(k \<mapsto> item\<lparr>Object := vo\<rparr>)\<rparr>, None)
            \<and> kind_of vo = ?kd
            \<and> int_value vo = Some (wrap_kind W ?kd (x + wrap_kind W ?kd (sint n)))"
    using vo(2) by blast
  obtain wo where wo: "Decrement_switch W (Object item) n = Some wo" "kind_of wo = ?kd"
      "int_value wo = Some (wrap_kind W ?kd (x - sint n))"
    using Decrement_switch_int [OF assms(3), of W n] by blast
  have dec: "Decrement W c now k n = (c\<lparr>items := (items c)(k \<mapsto> item\<lparr>Object := wo\<rparr>)\<rparr>, None)"
    using Decrement_frame [OF assms(1,2), of W n] wo(1) by simp
  have val: "int_value wo = Some (wrap_kind W ?kd (x - wrap_kind W ?kd (sint n)))"
    by (simp add: wo(3) wrap_kind_sub_wrap)
  have top: "\<not> kind_signed ?kd \<and> 0 \<le> x \<and> x < wrap_kind W ?kd (sint n)
       \<longrightarrow> int_value wo = Some (x - wrap_kind W ?kd (sint n) + 2 ^ kind_bits W ?kd)"
  proof (intro impI, elim conjE)
    let ?m = "2 ^ kind_bits W ?kd :: int"
    let ?delta = "wrap_kind W ?kd (sint n)"
    assume u: "\<not> kind_signed ?kd" and x0: "0 \<le> x" and lt: "x < ?delta"
    have "?delta = sint n mod ?m"
      using u by (simp add: wrap_kind_def)
    then have "?delta < ?m"
      by simp
    then have lo: "0 \<le> x - ?delta + ?m" and hi: "x - ?delta + ?m < ?m"
      using x0 lt by linarith+
    have "wrap_kind W ?kd (x - ?delta) = (x - ?delta) mod ?m"
      using u by (simp add: wrap_kind_def)
    also have "\<dots> = (x - ?delta + ?m) mod ?m"
      by (simp only: mod_add_self2)
    also have "\<dots> = x - ?delta + ?m"
      by (rule mod_pos_pos_trivial [OF lo hi])
    finally show "int_value wo = Some (x - ?delta + ?m)"
      using val by simp
  qed
  show "\<exists>vo. Decrement W c now k n = (c\<lparr>items := (items c)(k \<mapsto> item\<lparr>Object := vo\<rparr>)\<rparr>, None)
            \<and> kind_of vo = ?kd
            \<and> int_value vo = Some (wrap_kind W ?kd (x - wrap_kind W ?kd (sint n)))
            \<and> (\<not> kind_signed ?kd \<and> 0 \<le> x \<and> x < wrap_kind W ?kd (sint n)
                \<longrightarrow> int_value vo = Some (x - wrap_kind W ?kd (sint n) + 2 ^ kind_bits W ?kd))"
    using dec wo(2) val top by blast
qed

theorem Increment_Decrement_wraparound_witness:
  "Decrement 64
      \<lparr>defaultExpiration = - 1,
       items = [''u'' \<mapsto> \<lparr>Object = VUint8 0 :: unit payload, Expiration = 0\<rparr>],
       onEvicted = None :: (string \<Rightarrow> unit payload \<Rightarrow> unit) option\<rparr> 1000 ''u'' 1
     = (\<lparr>defaultExpiration = - 1,
         items = [''u'' \<mapsto> \<lparr>Object = VUint8 255, Expiration = 0\<rparr>],
         onEvicted = None\<rparr>, None)
   \<and> Increment 64
      \<lparr>defaultExpiration = - 1,
       items = [''u'' \<mapsto> \<lparr>Object = VUint8 0 :: unit payload, Expiration = 0\<rparr>],
       onEvicted = None :: (string \<Rightarrow> unit payload \<Rightarrow> unit) option\<rparr> 1000 ''u'' 257
     = (\<lparr>defaultExpiration = - 1,
         items = [''u'' \<mapsto> \<lparr>Object = VUint8 1, Expiration = 0\<rparr>],
         onEvicted = None\<rparr>, None)"
proof -
  let ?item = "\<lparr>Object = VUint8 0 :: unit payload, Expiration = 0\<rparr>"
  let ?c = "\<lparr>defaultExpiration = - 1, items = [''u'' \<mapsto> ?item],
            onEvicted = None :: (string \<Rightarrow> unit payload \<Rightarrow> unit) option\<rparr>"
  have h1: "items ?c ''u'' = Some ?item"
    by simp
  have h2: "\<not> Expired ?item 1000"
    by (simp add: Expired_def)
  have h3: "int_value (Object ?item) = Some 0"
    by simp
  have v: "\<And>vo :: unit payload. kind_of vo = KUint8 \<Longrightarrow> int_value vo = Some 255 \<Longrightarrow> vo = VUint8 255"
    "\<And>vo :: unit payload. kind_of vo = KUint8 \<Longrightarrow> int_value vo = Some 1 \<Longrightarrow> vo = VUint8 1"
    by (erule kind_of.elims; simp add: word_uint_eq_iff)+
  show ?thesis
    using Increment_Decrement_wraparound [OF h1 h2 h3, of 64 1]
      Increment_Decrement_wraparound [OF h1 h2 h3, of 64 257]
    by (auto simp: wrap_kind_def dest: v)
qed

end
